theory Spec2Isabelle
  imports Complex_Main
begin

section \<open>Values received from clients\<close>

text \<open>
  The handlers of \<^verbatim>\<open>server.js\<close> receive whatever JSON value the client put into the
  event. Room ids and targets are used as keys of JavaScript \<^verbatim>\<open>Map\<close>s, which compare
  primitives by value; the primitives are therefore a type of their own. JSON numbers are
  finite, so a number is a rational (\<^verbatim>\<open>-0\<close> and \<^verbatim>\<open>0\<close> are the same key and both falsy).
  An object is the list of its own properties; arrays are not modelled.
\<close>

datatype prim = JUndefined | JNull | JBool bool | JNum rat | JStr string

datatype jsval = JPrim prim | JObj "(string \<times> jsval) list"

text \<open>JavaScript truthiness: \<^verbatim>\<open>!v\<close> holds for undefined, null, false, 0 and the empty string.\<close>

fun truthy :: "prim \<Rightarrow> bool" where
  "truthy JUndefined = False"
| "truthy JNull = False"
| "truthy (JBool b) = b"
| "truthy (JNum q) = (q \<noteq> 0)"
| "truthy (JStr s) = (s \<noteq> [])"

fun truthyv :: "jsval \<Rightarrow> bool" where
  "truthyv (JPrim p) = truthy p"
| "truthyv (JObj ps) = True"

text \<open>Reading a property: absent properties, and properties of primitives, are undefined.\<close>

fun get_prop :: "jsval \<Rightarrow> string \<Rightarrow> jsval" where
  "get_prop (JObj ps) k = (case map_of ps k of None \<Rightarrow> JPrim JUndefined | Some v \<Rightarrow> v)"
| "get_prop (JPrim p) k = JPrim JUndefined"

datatype error = TypeError

text \<open>
  The parameter pattern \<^verbatim>\<open>({ roomId, targetId, data })\<close> of the signal handler: destructuring
  undefined or null throws a TypeError, any other value yields the three properties.
\<close>

definition destructure :: "jsval \<Rightarrow> error + (jsval \<times> jsval \<times> jsval)" where
  "destructure payload =
     (if payload = JPrim JUndefined \<or> payload = JPrim JNull then Inl TypeError
      else Inr (get_prop payload ''roomId'', get_prop payload ''targetId'',
                get_prop payload ''data''))"

section \<open>JavaScript sets\<close>

text \<open>
  A \<^verbatim>\<open>Set\<close> keeps its elements in insertion order and without duplicates: a list, to which
  \<^verbatim>\<open>add\<close> appends an element that is not yet there.
\<close>

definition set_add :: "'a \<Rightarrow> 'a list \<Rightarrow> 'a list" where
  "set_add x xs = (if x \<in> set xs then xs else xs @ [x])"

definition set_delete :: "'a \<Rightarrow> 'a list \<Rightarrow> 'a list" where
  "set_delete x xs = removeAll x xs"

section \<open>State: the registry and the transport's rooms\<close>

text \<open>
  \<open>rooms\<close> is the server's \<^verbatim>\<open>const rooms = new Map()\<close> (room id to set of socket ids).
  The other two fields are the room membership kept by Socket.IO itself, in the two indices of
  its in-memory adapter: \<open>sio_rooms\<close> (room to sockets, what \<^verbatim>\<open>to(room)\<close> reads) and
  \<open>sio_sids\<close> (socket to rooms, what \<^verbatim>\<open>socket.rooms\<close> reads). A socket is connected while
  it has an entry in \<open>sio_sids\<close>.
\<close>

record state =
  rooms :: "prim \<rightharpoonup> string list"
  sio_rooms :: "prim \<rightharpoonup> string list"
  sio_sids :: "string \<rightharpoonup> prim list"

definition init :: state where
  "init = \<lparr>rooms = Map.empty, sio_rooms = Map.empty, sio_sids = Map.empty\<rparr>"

definition sock_connected :: "state \<Rightarrow> string \<Rightarrow> bool" where
  "sock_connected st sid = (sio_sids st sid \<noteq> None)"

definition socket_rooms :: "state \<Rightarrow> string \<Rightarrow> prim list" where
  "socket_rooms st sid = (case sio_sids st sid of None \<Rightarrow> [] | Some rs \<Rightarrow> rs)"

text \<open>
  The sockets of a transport room. An object received from a client is a fresh reference and
  so never a key of the adapter's map.
\<close>

fun room_sockets :: "state \<Rightarrow> jsval \<Rightarrow> string list" where
  "room_sockets st (JPrim r) = (case sio_rooms st r of None \<Rightarrow> [] | Some ms \<Rightarrow> ms)"
| "room_sockets st (JObj ps) = []"

text \<open>\<^verbatim>\<open>socket.join(room)\<close>: the adapter adds the room to the socket and the socket to the room.\<close>

definition socket_join :: "string \<Rightarrow> prim \<Rightarrow> state \<Rightarrow> state" where
  "socket_join sid room st =
     st\<lparr>sio_sids := (sio_sids st)(sid \<mapsto> set_add room (socket_rooms st sid)),
        sio_rooms := (sio_rooms st)(room \<mapsto> set_add sid (room_sockets st (JPrim room)))\<rparr>"

text \<open>The adapter removes a socket from one room and drops a room that became empty.\<close>

definition adapter_del :: "string \<Rightarrow> prim \<Rightarrow> state \<Rightarrow> state" where
  "adapter_del sid room st =
     (case sio_rooms st room of
        None \<Rightarrow> st
      | Some ms \<Rightarrow>
          (let ms' = set_delete sid ms
           in if length ms' = 0 then st\<lparr>sio_rooms := (sio_rooms st)(room := None)\<rparr>
              else st\<lparr>sio_rooms := (sio_rooms st)(room \<mapsto> ms')\<rparr>))"

text \<open>\<^verbatim>\<open>socket.leave(room)\<close>.\<close>

definition socket_leave :: "string \<Rightarrow> prim \<Rightarrow> state \<Rightarrow> state" where
  "socket_leave sid room st =
     adapter_del sid room
       (case sio_sids st sid of
          None \<Rightarrow> st
        | Some rs \<Rightarrow> st\<lparr>sio_sids := (sio_sids st)(sid \<mapsto> set_delete room rs)\<rparr>)"

text \<open>What Socket.IO does after the \<^verbatim>\<open>disconnecting\<close> event: the socket leaves all its rooms.\<close>

definition leave_all :: "string \<Rightarrow> state \<Rightarrow> state" where
  "leave_all sid st =
     (case sio_sids st sid of
        None \<Rightarrow> st
      | Some rs \<Rightarrow>
          (let st' = fold (adapter_del sid) rs st
           in st'\<lparr>sio_sids := (sio_sids st')(sid := None)\<rparr>))"

section \<open>Messages sent to clients\<close>

datatype message =
    RoomInfo "string list"
  | PeerJoined string
  | PeerLeft string
  | SignalMsg string jsval

text \<open>
  How an emit call was addressed: \<^verbatim>\<open>socket.emit\<close> reaches the socket itself and
  \<^verbatim>\<open>io.to(room).emit\<close> every socket in the room. \<^verbatim>\<open>socket.to(room).emit\<close> is a
  broadcast to the room with the room named \<^verbatim>\<open>socket.id\<close> as the excepted room: Socket.IO 4
  builds the operator with \<^verbatim>\<open>exceptRooms = {socket.id}\<close>, and its adapter skips every
  socket that is in an excepted room. So the sender is skipped as long as it is in the room
  named by its own id, and so is any other socket that has joined that room. An emission
  records the call, the sockets it reaches in the state at the time of the call, and the
  message; the sockets are listed in the order in which they entered the room.
\<close>

datatype addressing = SocketEmit string | SocketTo string jsval | IoTo jsval

record emission =
  addr :: addressing
  recipients :: "string list"
  msg :: message

definition socket_emit :: "string \<Rightarrow> message \<Rightarrow> emission" where
  "socket_emit sid m = \<lparr>addr = SocketEmit sid, recipients = [sid], msg = m\<rparr>"

definition socket_to_emit :: "string \<Rightarrow> jsval \<Rightarrow> message \<Rightarrow> state \<Rightarrow> emission" where
  "socket_to_emit sid room m st =
     \<lparr>addr = SocketTo sid room,
      recipients =
        filter (\<lambda>id. id \<notin> set (room_sockets st (JPrim (JStr sid)))) (room_sockets st room),
      msg = m\<rparr>"

definition io_to_emit :: "jsval \<Rightarrow> message \<Rightarrow> state \<Rightarrow> emission" where
  "io_to_emit room m st = \<lparr>addr = IoTo room, recipients = room_sockets st room, msg = m\<rparr>"

section \<open>The handlers of server.js\<close>

text \<open>\<^verbatim>\<open>socket.on('join', (roomId) => ...)\<close>; \<open>sid\<close> is \<^verbatim>\<open>socket.id\<close>.\<close>

definition handle_join :: "string \<Rightarrow> prim \<Rightarrow> state \<Rightarrow> state \<times> emission list" where
  "handle_join sid roomId st =
     (if \<not> truthy roomId then (st, [])
      else
        let st1 = socket_join sid roomId st;
            room = (case rooms st1 roomId of None \<Rightarrow> [] | Some ms \<Rightarrow> ms);
            room' = set_add sid room;
            st2 = st1\<lparr>rooms := (rooms st1)(roomId \<mapsto> room')\<rparr>;
            joined = socket_to_emit sid (JPrim roomId) (PeerJoined sid) st2;
            existingPeers = filter (\<lambda>id. id \<noteq> sid) room'
        in (st2, [joined, socket_emit sid (RoomInfo existingPeers)]))"

text \<open>\<^verbatim>\<open>socket.on('signal', ({ roomId, targetId, data }) => ...)\<close>.\<close>

definition handle_signal :: "string \<Rightarrow> jsval \<Rightarrow> state \<Rightarrow> error + (state \<times> emission list)" where
  "handle_signal sid payload st =
     (case destructure payload of
        Inl e \<Rightarrow> Inl e
      | Inr (roomId, targetId, data) \<Rightarrow>
          if \<not> truthyv roomId \<or> \<not> truthyv data then Inr (st, [])
          else if truthyv targetId
          then Inr (st, [io_to_emit targetId (SignalMsg sid data) st])
          else Inr (st, [socket_to_emit sid roomId (SignalMsg sid data) st]))"

text \<open>\<^verbatim>\<open>socket.on('leave', (roomId) => ...)\<close>.\<close>

definition handle_leave :: "string \<Rightarrow> prim \<Rightarrow> state \<Rightarrow> state \<times> emission list" where
  "handle_leave sid roomId st =
     (if \<not> truthy roomId then (st, [])
      else case rooms st roomId of
        None \<Rightarrow> (st, [])
      | Some room \<Rightarrow>
          (let room' = set_delete sid room;
               st1 = st\<lparr>rooms := (rooms st)(roomId \<mapsto> room')\<rparr>;
               st2 = socket_leave sid roomId st1
           in if length room' = 0 then (st2\<lparr>rooms := (rooms st2)(roomId := None)\<rparr>, [])
              else (st2, [socket_to_emit sid (JPrim roomId) (PeerLeft sid) st2])))"

text \<open>
  \<^verbatim>\<open>socket.on('disconnecting', () => ...)\<close>: the loop over \<^verbatim>\<open>socket.rooms\<close>, with the state
  and the emissions so far as accumulator.
\<close>

fun disconnecting_loop ::
  "string \<Rightarrow> prim list \<Rightarrow> state \<times> emission list \<Rightarrow> state \<times> emission list" where
  "disconnecting_loop sid [] acc = acc"
| "disconnecting_loop sid (roomId # rest) (st, out) =
     (if roomId = JStr sid then disconnecting_loop sid rest (st, out)
      else case rooms st roomId of
        None \<Rightarrow> disconnecting_loop sid rest (st, out)
      | Some room \<Rightarrow>
          (let room' = set_delete sid room
           in if length room' = 0
              then disconnecting_loop sid rest (st\<lparr>rooms := (rooms st)(roomId := None)\<rparr>, out)
              else
                let st1 = st\<lparr>rooms := (rooms st)(roomId \<mapsto> room')\<rparr>
                in disconnecting_loop sid rest
                     (st1, out @ [socket_to_emit sid (JPrim roomId) (PeerLeft sid) st1])))"

definition handle_disconnecting :: "string \<Rightarrow> state \<Rightarrow> state \<times> emission list" where
  "handle_disconnecting sid st = disconnecting_loop sid (socket_rooms st sid) (st, [])"

section \<open>Events of the relay\<close>

text \<open>
  A connection: Socket.IO puts every new socket into the room named by its own id and
  registers the handlers. The handlers exist only for connected sockets, and a disconnect
  runs the \<^verbatim>\<open>disconnecting\<close> handler before the socket leaves its rooms. An exception that
  no handler catches ends the process, so a run stops at the first error.
\<close>

datatype event =
    Connect string
  | Join string prim
  | Signal string jsval
  | Leave string prim
  | Disconnect string

fun step :: "event \<Rightarrow> state \<Rightarrow> error + (state \<times> emission list)" where
  "step (Connect sid) st =
     Inr (if sock_connected st sid then st else socket_join sid (JStr sid) st, [])"
| "step (Join sid roomId) st =
     Inr (if sock_connected st sid then handle_join sid roomId st else (st, []))"
| "step (Signal sid payload) st =
     (if sock_connected st sid then handle_signal sid payload st else Inr (st, []))"
| "step (Leave sid roomId) st =
     Inr (if sock_connected st sid then handle_leave sid roomId st else (st, []))"
| "step (Disconnect sid) st =
     Inr (if sock_connected st sid
          then (let (st1, out) = handle_disconnecting sid st in (leave_all sid st1, out))
          else (st, []))"

fun run :: "event list \<Rightarrow> state \<Rightarrow> error + (state \<times> emission list)" where
  "run [] st = Inr (st, [])"
| "run (e # es) st =
     (case step e st of
        Inl err \<Rightarrow> Inl err
      | Inr (st1, out1) \<Rightarrow>
          (case run es st1 of
             Inl err \<Rightarrow> Inl err
           | Inr (st2, out2) \<Rightarrow> Inr (st2, out1 @ out2)))"

fun mutates_registry :: "event \<Rightarrow> bool" where
  "mutates_registry (Join sid roomId) = True"
| "mutates_registry (Leave sid roomId) = True"
| "mutates_registry (Disconnect sid) = True"
| "mutates_registry e = False"

section \<open>Notions used to state the properties\<close>

text \<open>The members of a registry room; a room that is not in the registry has none.\<close>

definition members :: "state \<Rightarrow> prim \<Rightarrow> string list" where
  "members st r = (case rooms st r of None \<Rightarrow> [] | Some ms \<Rightarrow> ms)"

text \<open>Every room that the registry holds has a member.\<close>

definition rooms_nonempty :: "state \<Rightarrow> bool" where
  "rooms_nonempty st = (\<forall>r ms. rooms st r = Some ms \<longrightarrow> ms \<noteq> [])"

text \<open>
  The test the \<^verbatim>\<open>disconnecting\<close> loop makes for a room before it emits \<^verbatim>\<open>peer-left\<close>:
  the room is not the one named by the socket's id, the registry holds it, and it keeps a member
  once the socket is deleted. \<open>after_disconnect\<close> is the registry entry the loop leaves for
  a room, given the rooms it ran over.
\<close>

definition notifies :: "state \<Rightarrow> string \<Rightarrow> prim \<Rightarrow> bool" where
  "notifies st sid r =
     (r \<noteq> JStr sid \<and> (case rooms st r of None \<Rightarrow> False | Some ms \<Rightarrow> set_delete sid ms \<noteq> []))"

definition after_disconnect :: "state \<Rightarrow> string \<Rightarrow> prim list \<Rightarrow> prim \<Rightarrow> string list option" where
  "after_disconnect st sid rs r =
     (if r \<in> set rs \<and> r \<noteq> JStr sid
      then (case rooms st r of
              None \<Rightarrow> None
            | Some ms \<Rightarrow> if set_delete sid ms = [] then None else Some (set_delete sid ms))
      else rooms st r)"

text \<open>
  How the registry and the transport's rooms hang together in the states the relay can reach:
  a connected member of a registry room is in the transport room of that name; a socket in a
  transport room other than the one named by its own id is a member of the registry room; the
  adapter's two indices agree; a member that is no longer connected is a member only of the
  room named by its own id; and \<^verbatim>\<open>socket.rooms\<close> lists no room twice.
\<close>

definition registry_in_transport :: "state \<Rightarrow> bool" where
  "registry_in_transport st =
     (\<forall>s r. s \<in> set (members st r) \<and> sock_connected st s \<longrightarrow> s \<in> set (room_sockets st (JPrim r)))"

definition transport_in_registry :: "state \<Rightarrow> bool" where
  "transport_in_registry st =
     (\<forall>s r. s \<in> set (room_sockets st (JPrim r)) \<and> r \<noteq> JStr s \<longrightarrow> s \<in> set (members st r))"

definition adapter_consistent :: "state \<Rightarrow> bool" where
  "adapter_consistent st =
     (\<forall>s r. s \<in> set (room_sockets st (JPrim r)) \<longleftrightarrow> r \<in> set (socket_rooms st s))"

definition gone_only_own_room :: "state \<Rightarrow> bool" where
  "gone_only_own_room st =
     (\<forall>s r. s \<in> set (members st r) \<and> \<not> sock_connected st s \<longrightarrow> r = JStr s)"

definition socket_rooms_distinct :: "state \<Rightarrow> bool" where
  "socket_rooms_distinct st = (\<forall>s. distinct (socket_rooms st s))"

definition consistent :: "state \<Rightarrow> bool" where
  "consistent st =
     (registry_in_transport st \<and> transport_in_registry st \<and> adapter_consistent st \<and>
      gone_only_own_room st \<and> socket_rooms_distinct st)"

text \<open>The two guards of the leave handler, and the state a disconnect of a connected socket leaves.\<close>

definition leave_runs :: "state \<Rightarrow> prim \<Rightarrow> bool" where
  "leave_runs st r0 = (truthy r0 \<and> rooms st r0 \<noteq> None)"

definition disconnected :: "string \<Rightarrow> state \<Rightarrow> state" where
  "disconnected s st = leave_all s (fst (handle_disconnecting s st))"

text \<open>
  A connected socket is alone in the room named by its own id unless a join or a leave has
  named that room: \<open>own_room_intact\<close> is the state of affairs, \<open>names_room\<close> the events
  that can end it.
\<close>

definition own_room_intact :: "state \<Rightarrow> string \<Rightarrow> bool" where
  "own_room_intact st s = (room_sockets st (JPrim (JStr s)) = [s])"



lemmas relay_defs = handle_join_def handle_leave_def handle_signal_def
  handle_disconnecting_def socket_join_def socket_leave_def adapter_del_def leave_all_def
  socket_rooms_def sock_connected_def init_def set_add_def set_delete_def Let_def
  socket_emit_def socket_to_emit_def io_to_emit_def destructure_def members_def

section \<open>Basic facts about sets, the adapter and the handlers\<close>

lemma adapter_del_rooms: "rooms (adapter_del sid room st) = rooms st"
  by (simp add: adapter_del_def Let_def split: option.splits)

lemma fold_adapter_del_rooms: "rooms (fold (adapter_del sid) rs st) = rooms st"
  by (induction rs arbitrary: st) (simp_all add: adapter_del_rooms)

lemma leave_all_rooms: "rooms (leave_all sid st) = rooms st"
  by (simp add: leave_all_def Let_def fold_adapter_del_rooms split: option.splits)

lemma socket_join_rooms: "rooms (socket_join sid room st) = rooms st"
  by (simp add: socket_join_def)

lemma socket_leave_rooms: "rooms (socket_leave sid room st) = rooms st"
  by (simp add: socket_leave_def adapter_del_rooms split: option.splits)

lemma handle_signal_state:
  "handle_signal sid payload st = Inr (st', out) \<Longrightarrow> st' = st"
  by (auto simp: handle_signal_def split: sum.splits prod.splits if_splits)

lemma set_delete_idem [simp]: "set_delete x (set_delete x xs) = set_delete x xs"
  by (simp add: set_delete_def)

lemma set_delete_notin: "x \<notin> set xs \<Longrightarrow> set_delete x xs = xs"
  by (simp add: set_delete_def)

lemma set_set_delete [simp]: "set (set_delete x xs) = set xs - {x}"
  by (simp add: set_delete_def)

lemma set_set_add [simp]: "set (set_add x xs) = insert x (set xs)"
  by (auto simp: set_add_def)

lemma set_add_idem [simp]: "set_add x (set_add x xs) = set_add x xs"
  by (simp add: set_add_def)

lemma set_add_nonempty [simp]: "set_add x xs \<noteq> []"
  by (auto simp: set_add_def)


lemma set_delete_filter: "set_delete x xs = filter (\<lambda>y. y \<noteq> x) xs"
  by (induction xs) (simp_all add: set_delete_def)

lemma room_sockets_socket_leave:
  "filter (\<lambda>id. id \<noteq> sid) (room_sockets (socket_leave sid room st) (JPrim r)) =
   filter (\<lambda>id. id \<noteq> sid) (room_sockets st (JPrim r))"
  by (simp add: socket_leave_def adapter_del_def set_delete_filter Let_def
      split: option.splits)

lemma loop_sio:
  "sio_rooms (fst (disconnecting_loop sid rs (st, out))) = sio_rooms st \<and>
   sio_sids (fst (disconnecting_loop sid rs (st, out))) = sio_sids st"
  by (induction rs arbitrary: st out) (auto simp: Let_def split: option.splits)

lemma loop_rooms:
  "rooms (fst (disconnecting_loop sid rs (st, out))) r = after_disconnect st sid rs r"
proof (induction rs arbitrary: st out)
  case Nil
  show ?case by (simp add: after_disconnect_def)
next
  case (Cons a rs)
  show ?case
    apply (simp add: Cons.IH Let_def split: option.splits)
    apply (auto simp: after_disconnect_def split: option.splits)
    done
qed


lemma notifies_upd_none:
  "rooms st a = Some ms \<Longrightarrow> set_delete sid ms = [] \<Longrightarrow>
   notifies (st\<lparr>rooms := (rooms st)(a := None)\<rparr>) sid = notifies st sid"
  by (auto simp: notifies_def fun_eq_iff)

lemma notifies_upd_some:
  "rooms st a = Some ms \<Longrightarrow>
   notifies (st\<lparr>rooms := (rooms st)(a \<mapsto> set_delete sid ms)\<rparr>) sid = notifies st sid"
  by (auto simp: notifies_def fun_eq_iff)

lemma socket_to_emit_rooms_upd [simp]:
  "socket_to_emit sid (JPrim r) m (st\<lparr>rooms := f\<rparr>) = socket_to_emit sid (JPrim r) m st"
  by (simp add: socket_to_emit_def)

lemma loop_out:
  "snd (disconnecting_loop sid rs (st, out)) =
   out @ map (\<lambda>r. socket_to_emit sid (JPrim r) (PeerLeft sid) st) (filter (notifies st sid) rs)"
proof (induction rs arbitrary: st out)
  case Nil
  show ?case by simp
next
  case (Cons a rs)
  show ?case
  proof (cases "a = JStr sid")
    case True
    then show ?thesis by (simp add: Cons.IH notifies_def)
  next
    case False
    show ?thesis
    proof (cases "rooms st a")
      case None
      with False show ?thesis by (simp add: Cons.IH notifies_def)
    next
      case (Some ms)
      show ?thesis
      proof (cases "set_delete sid ms = []")
        case True
        with False Some show ?thesis
          by (simp add: Cons.IH notifies_upd_none) (simp add: notifies_def)
      next
        case False2: False
        with False Some show ?thesis
          by (simp add: Cons.IH notifies_upd_some Let_def) (simp add: notifies_def)
      qed
    qed
  qed
qed

lemma handle_disconnecting_rooms:
  "rooms (fst (handle_disconnecting sid st)) r = after_disconnect st sid (socket_rooms st sid) r"
  by (simp add: handle_disconnecting_def loop_rooms)

lemma handle_disconnecting_out:
  "snd (handle_disconnecting sid st) =
   map (\<lambda>r. socket_to_emit sid (JPrim r) (PeerLeft sid) st)
     (filter (notifies st sid) (socket_rooms st sid))"
  by (simp add: handle_disconnecting_def loop_out)

lemma handle_disconnecting_sio:
  "sio_rooms (fst (handle_disconnecting sid st)) = sio_rooms st \<and>
   sio_sids (fst (handle_disconnecting sid st)) = sio_sids st"
  by (simp add: handle_disconnecting_def loop_sio)

lemma rooms_nonempty_iff: "rooms_nonempty st \<longleftrightarrow> (\<forall>r. rooms st r \<noteq> Some [])"
  by (auto simp: rooms_nonempty_def)

lemma handle_join_nonempty: "rooms_nonempty st \<Longrightarrow> rooms_nonempty (fst (handle_join sid r st))"
  by (auto simp: rooms_nonempty_iff handle_join_def Let_def socket_join_rooms)

lemma handle_leave_nonempty: "rooms_nonempty st \<Longrightarrow> rooms_nonempty (fst (handle_leave sid r st))"
  by (auto simp: rooms_nonempty_iff handle_leave_def Let_def socket_leave_rooms
      split: option.splits if_splits)

lemma handle_disconnecting_nonempty:
  "rooms_nonempty st \<Longrightarrow> rooms_nonempty (fst (handle_disconnecting sid st))"
  by (auto simp: rooms_nonempty_iff handle_disconnecting_rooms after_disconnect_def
      split: option.splits if_splits)

lemma step_nonempty:
  "rooms_nonempty st \<Longrightarrow> step e st = Inr (st', out) \<Longrightarrow> rooms_nonempty st'"
proof (cases e)
  case (Connect s)
  assume "rooms_nonempty st" "step e st = Inr (st', out)"
  with Connect show ?thesis
    by (auto simp: rooms_nonempty_iff socket_join_rooms split: if_splits)
next
  case (Join s r)
  assume "rooms_nonempty st" "step e st = Inr (st', out)"
  with Join handle_join_nonempty[of st s r] show ?thesis
    by (auto split: if_splits)
next
  case (Signal s p)
  assume "rooms_nonempty st" "step e st = Inr (st', out)"
  with Signal show ?thesis
    by (auto dest: handle_signal_state split: if_splits)
next
  case (Leave s r)
  assume "rooms_nonempty st" "step e st = Inr (st', out)"
  with Leave handle_leave_nonempty[of st s r] show ?thesis
    by (auto split: if_splits)
next
  case (Disconnect s)
  assume "rooms_nonempty st" "step e st = Inr (st', out)"
  with Disconnect handle_disconnecting_nonempty[of st s] show ?thesis
    by (auto simp: rooms_nonempty_iff leave_all_rooms split: if_splits prod.splits)
qed

lemma run_nonempty:
  "rooms_nonempty st \<Longrightarrow> run es st = Inr (st', out) \<Longrightarrow> rooms_nonempty st'"
proof (induction es arbitrary: st out)
  case Nil
  then show ?case by simp
next
  case (Cons e es)
  then show ?case
    by (auto split: sum.splits prod.splits dest: step_nonempty)
qed

lemma init_nonempty: "rooms_nonempty init"
  by (simp add: rooms_nonempty_iff init_def)

section \<open>The registry and the transport rooms stay consistent\<close>

lemma distinct_set_add: "distinct xs \<Longrightarrow> distinct (set_add x xs)"
  by (simp add: set_add_def)

lemma distinct_set_delete: "distinct xs \<Longrightarrow> distinct (set_delete x xs)"
  by (simp add: set_delete_def distinct_removeAll)

lemma set_delete_Nil: "set_delete x xs = [] \<longleftrightarrow> set xs \<subseteq> {x}"
  by (induction xs) (auto simp: set_delete_def)

lemma socket_join_room_sockets:
  "set (room_sockets (socket_join s r0 st) (JPrim r)) =
     (if r = r0 then insert s (set (room_sockets st (JPrim r))) else set (room_sockets st (JPrim r)))"
  by (auto simp: socket_join_def split: option.splits)

lemma socket_join_socket_rooms:
  "set (socket_rooms (socket_join s r0 st) t) =
     (if t = s then insert r0 (set (socket_rooms st t)) else set (socket_rooms st t))"
  by (auto simp: socket_join_def socket_rooms_def split: option.splits)

lemma socket_join_connected:
  "sock_connected (socket_join s r0 st) t = (t = s \<or> sock_connected st t)"
  by (simp add: socket_join_def sock_connected_def)

lemma socket_join_members: "members (socket_join s r0 st) r = members st r"
  by (simp add: members_def socket_join_rooms)

lemma socket_join_distinct:
  "socket_rooms_distinct st \<Longrightarrow> socket_rooms_distinct (socket_join s r0 st)"
  by (auto simp: socket_rooms_distinct_def socket_join_def socket_rooms_def distinct_set_add
      split: option.splits)

lemma adapter_del_room_sockets:
  "set (room_sockets (adapter_del s r0 st) (JPrim r)) =
     (if r = r0 then set (room_sockets st (JPrim r)) - {s} else set (room_sockets st (JPrim r)))"
  by (auto simp: adapter_del_def Let_def set_delete_Nil split: option.splits)

lemma adapter_del_sids: "sio_sids (adapter_del s r0 st) = sio_sids st"
  by (simp add: adapter_del_def Let_def split: option.splits)

lemma socket_leave_room_sockets:
  "set (room_sockets (socket_leave s r0 st) (JPrim r)) =
     (if r = r0 then set (room_sockets st (JPrim r)) - {s} else set (room_sockets st (JPrim r)))"
proof (cases "sio_sids st s")
  case None
  then show ?thesis
    by (simp add: socket_leave_def adapter_del_room_sockets del: room_sockets.simps)
next
  case (Some rs)
  have "room_sockets (st\<lparr>sio_sids := (sio_sids st)(s \<mapsto> set_delete r0 rs)\<rparr>) (JPrim r) =
        room_sockets st (JPrim r)" for r
    by simp
  with Some show ?thesis
    by (simp add: socket_leave_def adapter_del_room_sockets del: room_sockets.simps)
qed

lemma socket_leave_sids:
  "sio_sids (socket_leave s r0 st) =
     (case sio_sids st s of None \<Rightarrow> sio_sids st
      | Some rs \<Rightarrow> (sio_sids st)(s \<mapsto> set_delete r0 rs))"
  by (simp add: socket_leave_def adapter_del_sids split: option.splits)

lemma socket_leave_socket_rooms:
  "set (socket_rooms (socket_leave s r0 st) t) =
     (if t = s then set (socket_rooms st t) - {r0} else set (socket_rooms st t))"
  by (auto simp: socket_leave_sids socket_rooms_def split: option.splits)

lemma socket_leave_connected:
  "sock_connected (socket_leave s r0 st) t = sock_connected st t"
  by (auto simp: socket_leave_sids sock_connected_def split: option.splits)

lemma socket_leave_members: "members (socket_leave s r0 st) r = members st r"
  by (simp add: members_def socket_leave_rooms)

lemma socket_leave_distinct:
  "socket_rooms_distinct st \<Longrightarrow> socket_rooms_distinct (socket_leave s r0 st)"
  by (auto simp: socket_rooms_distinct_def socket_leave_sids socket_rooms_def distinct_set_delete
      split: option.splits)

lemma fold_adapter_del_room_sockets:
  "set (room_sockets (fold (adapter_del s) rs st) (JPrim r)) =
     (if r \<in> set rs then set (room_sockets st (JPrim r)) - {s} else set (room_sockets st (JPrim r)))"
  by (induction rs arbitrary: st) (auto simp: adapter_del_room_sockets simp del: room_sockets.simps)

lemma fold_adapter_del_sids: "sio_sids (fold (adapter_del s) rs st) = sio_sids st"
  by (induction rs arbitrary: st) (simp_all add: adapter_del_sids)

lemma leave_all_room_sockets:
  "set (room_sockets (leave_all s st) (JPrim r)) =
     (if r \<in> set (socket_rooms st s) then set (room_sockets st (JPrim r)) - {s}
      else set (room_sockets st (JPrim r)))"
proof (cases "sio_sids st s")
  case None
  then show ?thesis by (simp add: leave_all_def socket_rooms_def)
next
  case (Some rs)
  have "room_sockets (leave_all s st) (JPrim r) = room_sockets (fold (adapter_del s) rs st) (JPrim r)"
    using Some by (simp add: leave_all_def Let_def)
  with Some show ?thesis
    by (simp add: fold_adapter_del_room_sockets socket_rooms_def del: room_sockets.simps)
qed

lemma leave_all_socket_rooms:
  "socket_rooms (leave_all s st) t = (if t = s then [] else socket_rooms st t)"
  by (simp add: leave_all_def Let_def socket_rooms_def fold_adapter_del_sids split: option.splits)

lemma leave_all_connected:
  "sock_connected (leave_all s st) t = (sock_connected st t \<and> t \<noteq> s)"
  by (auto simp: leave_all_def Let_def sock_connected_def fold_adapter_del_sids split: option.splits)

lemma leave_all_members: "members (leave_all s st) r = members st r"
  by (simp add: members_def leave_all_rooms)

lemma handle_join_members:
  "set (members (fst (handle_join s r0 st)) r) =
     (if r = r0 \<and> truthy r0 then insert s (set (members st r)) else set (members st r))"
  by (auto simp: handle_join_def Let_def members_def socket_join_rooms split: option.splits)

lemma handle_join_sio:
  "sio_rooms (fst (handle_join s r0 st)) = sio_rooms (if truthy r0 then socket_join s r0 st else st) \<and>
   sio_sids (fst (handle_join s r0 st)) = sio_sids (if truthy r0 then socket_join s r0 st else st)"
  by (simp add: handle_join_def Let_def)

lemma room_sockets_cong:
  "sio_rooms st' = sio_rooms st \<Longrightarrow> room_sockets st' v = room_sockets st v"
  by (cases v) simp_all

lemma socket_rooms_cong:
  "sio_sids st' = sio_sids st \<Longrightarrow> socket_rooms st' s = socket_rooms st s"
  by (simp add: socket_rooms_def)

lemma sock_connected_cong:
  "sio_sids st' = sio_sids st \<Longrightarrow> sock_connected st' s = sock_connected st s"
  by (simp add: sock_connected_def)

lemma handle_join_room_sockets:
  "set (room_sockets (fst (handle_join s r0 st)) (JPrim r)) =
     (if r = r0 \<and> truthy r0 then insert s (set (room_sockets st (JPrim r)))
      else set (room_sockets st (JPrim r)))"
proof -
  have "room_sockets (fst (handle_join s r0 st)) (JPrim r) =
        room_sockets (if truthy r0 then socket_join s r0 st else st) (JPrim r)"
    by (rule room_sockets_cong) (simp add: handle_join_sio)
  then show ?thesis
    by (simp add: socket_join_room_sockets del: room_sockets.simps)
qed

lemma handle_join_socket_rooms:
  "set (socket_rooms (fst (handle_join s r0 st)) t) =
     (if t = s \<and> truthy r0 then insert r0 (set (socket_rooms st t)) else set (socket_rooms st t))"
proof -
  have "socket_rooms (fst (handle_join s r0 st)) t =
        socket_rooms (if truthy r0 then socket_join s r0 st else st) t"
    by (rule socket_rooms_cong) (simp add: handle_join_sio)
  then show ?thesis
    by (simp add: socket_join_socket_rooms)
qed

lemma handle_join_connected:
  "sock_connected (fst (handle_join s r0 st)) t = ((t = s \<and> truthy r0) \<or> sock_connected st t)"
proof -
  have "sock_connected (fst (handle_join s r0 st)) t =
        sock_connected (if truthy r0 then socket_join s r0 st else st) t"
    by (rule sock_connected_cong) (simp add: handle_join_sio)
  then show ?thesis
    by (simp add: socket_join_connected)
qed

lemma handle_join_distinct:
  assumes "socket_rooms_distinct st"
  shows "socket_rooms_distinct (fst (handle_join s r0 st))"
proof -
  have "socket_rooms (fst (handle_join s r0 st)) t =
        socket_rooms (if truthy r0 then socket_join s r0 st else st) t" for t
    by (rule socket_rooms_cong) (simp add: handle_join_sio)
  with assms socket_join_distinct [OF assms, of s r0] show ?thesis
    by (simp add: socket_rooms_distinct_def)
qed

lemma handle_leave_members:
  "set (members (fst (handle_leave s r0 st)) r) =
     (if r = r0 \<and> leave_runs st r0 then set (members st r) - {s} else set (members st r))"
  by (auto simp: handle_leave_def Let_def members_def socket_leave_rooms leave_runs_def
      set_delete_Nil split: option.splits)

lemma handle_leave_sio:
  "sio_rooms (fst (handle_leave s r0 st)) =
     sio_rooms (if leave_runs st r0 then socket_leave s r0 st else st) \<and>
   sio_sids (fst (handle_leave s r0 st)) =
     sio_sids (if leave_runs st r0 then socket_leave s r0 st else st)"
  by (auto simp: handle_leave_def Let_def leave_runs_def socket_leave_def adapter_del_def
      split: option.splits)

lemma handle_leave_room_sockets:
  "set (room_sockets (fst (handle_leave s r0 st)) (JPrim r)) =
     (if r = r0 \<and> leave_runs st r0 then set (room_sockets st (JPrim r)) - {s}
      else set (room_sockets st (JPrim r)))"
proof -
  have "room_sockets (fst (handle_leave s r0 st)) (JPrim r) =
        room_sockets (if leave_runs st r0 then socket_leave s r0 st else st) (JPrim r)"
    by (rule room_sockets_cong) (simp add: handle_leave_sio)
  then show ?thesis
    by (simp add: socket_leave_room_sockets del: room_sockets.simps)
qed

lemma handle_leave_socket_rooms:
  "set (socket_rooms (fst (handle_leave s r0 st)) t) =
     (if t = s \<and> leave_runs st r0 then set (socket_rooms st t) - {r0} else set (socket_rooms st t))"
proof -
  have "socket_rooms (fst (handle_leave s r0 st)) t =
        socket_rooms (if leave_runs st r0 then socket_leave s r0 st else st) t"
    by (rule socket_rooms_cong) (simp add: handle_leave_sio)
  then show ?thesis
    by (simp add: socket_leave_socket_rooms)
qed

lemma handle_leave_connected:
  "sock_connected (fst (handle_leave s r0 st)) t = sock_connected st t"
proof -
  have "sock_connected (fst (handle_leave s r0 st)) t =
        sock_connected (if leave_runs st r0 then socket_leave s r0 st else st) t"
    by (rule sock_connected_cong) (simp add: handle_leave_sio)
  then show ?thesis
    by (simp add: socket_leave_connected)
qed

lemma handle_leave_distinct:
  assumes "socket_rooms_distinct st"
  shows "socket_rooms_distinct (fst (handle_leave s r0 st))"
proof -
  have "socket_rooms (fst (handle_leave s r0 st)) t =
        socket_rooms (if leave_runs st r0 then socket_leave s r0 st else st) t" for t
    by (rule socket_rooms_cong) (simp add: handle_leave_sio)
  with assms socket_leave_distinct [OF assms, of s r0] show ?thesis
    by (simp add: socket_rooms_distinct_def)
qed

lemma handle_disconnecting_members:
  "set (members (fst (handle_disconnecting s st)) r) =
     (if r \<in> set (socket_rooms st s) \<and> r \<noteq> JStr s then set (members st r) - {s}
      else set (members st r))"
  by (auto simp: members_def handle_disconnecting_rooms after_disconnect_def set_delete_Nil
      split: option.splits)

lemmas consistent_defs = consistent_def registry_in_transport_def transport_in_registry_def
  adapter_consistent_def gone_only_own_room_def

lemmas join_views = handle_join_members handle_join_room_sockets handle_join_socket_rooms
  handle_join_connected

lemma consistentD:
  assumes "consistent st"
  shows "\<And>s r. s \<in> set (members st r) \<Longrightarrow> sock_connected st s \<Longrightarrow> s \<in> set (room_sockets st (JPrim r))"
    and "\<And>s r. s \<in> set (room_sockets st (JPrim r)) \<Longrightarrow> r \<noteq> JStr s \<Longrightarrow> s \<in> set (members st r)"
    and "\<And>s r. s \<in> set (room_sockets st (JPrim r)) \<longleftrightarrow> r \<in> set (socket_rooms st s)"
    and "\<And>s r. s \<in> set (members st r) \<Longrightarrow> \<not> sock_connected st s \<Longrightarrow> r = JStr s"
    and "socket_rooms_distinct st"
  using assms unfolding consistent_defs by blast+

lemma join_W1:
  assumes "consistent st" and "sock_connected st s"
  shows "registry_in_transport (fst (handle_join s r0 st))"
  unfolding registry_in_transport_def
  by (simp only: join_views split: if_split) (use consistentD [OF assms(1)] assms(2) in blast)

lemma join_W3:
  assumes "consistent st" and "sock_connected st s"
  shows "transport_in_registry (fst (handle_join s r0 st))"
  unfolding transport_in_registry_def
  by (simp only: join_views split: if_split) (use consistentD [OF assms(1)] assms(2) in blast)

lemma join_W2:
  assumes "consistent st" and "sock_connected st s"
  shows "adapter_consistent (fst (handle_join s r0 st))"
  unfolding adapter_consistent_def
  by (simp only: join_views split: if_split) (use consistentD [OF assms(1)] assms(2) in blast)

lemma join_W6:
  assumes "consistent st" and "sock_connected st s"
  shows "gone_only_own_room (fst (handle_join s r0 st))"
  unfolding gone_only_own_room_def
  by (simp only: join_views split: if_split) (use consistentD [OF assms(1)] assms(2) in blast)

lemma join_consistent:
  assumes "consistent st" and "sock_connected st s"
  shows "consistent (fst (handle_join s r0 st))"
  unfolding consistent_def
  using join_W1 [OF assms] join_W3 [OF assms] join_W2 [OF assms] join_W6 [OF assms]
    handle_join_distinct [OF consistentD(5) [OF assms(1)]]
  by blast

lemmas connect_views = socket_join_members socket_join_room_sockets socket_join_socket_rooms
  socket_join_connected

lemma connect_W1:
  assumes "consistent st" and "\<not> sock_connected st s"
  shows "registry_in_transport (socket_join s (JStr s) st)"
  unfolding registry_in_transport_def
  by (simp only: connect_views split: if_split) (use consistentD [OF assms(1)] assms(2) in blast)

lemma connect_W3:
  assumes "consistent st" and "\<not> sock_connected st s"
  shows "transport_in_registry (socket_join s (JStr s) st)"
  unfolding transport_in_registry_def
  by (simp only: connect_views split: if_split) (use consistentD [OF assms(1)] assms(2) in blast)

lemma connect_W2:
  assumes "consistent st" and "\<not> sock_connected st s"
  shows "adapter_consistent (socket_join s (JStr s) st)"
  unfolding adapter_consistent_def
  by (simp only: connect_views split: if_split) (use consistentD [OF assms(1)] assms(2) in blast)

lemma connect_W6:
  assumes "consistent st" and "\<not> sock_connected st s"
  shows "gone_only_own_room (socket_join s (JStr s) st)"
  unfolding gone_only_own_room_def
  by (simp only: connect_views split: if_split) (use consistentD [OF assms(1)] assms(2) in blast)

lemma connect_consistent:
  assumes "consistent st" and "\<not> sock_connected st s"
  shows "consistent (socket_join s (JStr s) st)"
  unfolding consistent_def
  using connect_W1 [OF assms] connect_W3 [OF assms] connect_W2 [OF assms] connect_W6 [OF assms]
    socket_join_distinct [OF consistentD(5) [OF assms(1)]]
  by blast

lemmas leave_views = handle_leave_members handle_leave_room_sockets handle_leave_socket_rooms
  handle_leave_connected

lemma leave_W1:
  assumes "consistent st" and "sock_connected st s"
  shows "registry_in_transport (fst (handle_leave s r0 st))"
  unfolding registry_in_transport_def
  by (simp only: leave_views split: if_split) (use consistentD [OF assms(1)] assms(2) in blast)

lemma leave_W3:
  assumes "consistent st" and "sock_connected st s"
  shows "transport_in_registry (fst (handle_leave s r0 st))"
  unfolding transport_in_registry_def
  by (simp only: leave_views split: if_split) (use consistentD [OF assms(1)] assms(2) in blast)

lemma leave_W2:
  assumes "consistent st" and "sock_connected st s"
  shows "adapter_consistent (fst (handle_leave s r0 st))"
  unfolding adapter_consistent_def
  by (simp only: leave_views split: if_split) (use consistentD [OF assms(1)] assms(2) in blast)

lemma leave_W6:
  assumes "consistent st" and "sock_connected st s"
  shows "gone_only_own_room (fst (handle_leave s r0 st))"
  unfolding gone_only_own_room_def
  by (simp only: leave_views split: if_split) (use consistentD [OF assms(1)] assms(2) in blast)

lemma leave_consistent:
  assumes "consistent st" and "sock_connected st s"
  shows "consistent (fst (handle_leave s r0 st))"
  unfolding consistent_def
  using leave_W1 [OF assms] leave_W3 [OF assms] leave_W2 [OF assms] leave_W6 [OF assms]
    handle_leave_distinct [OF consistentD(5) [OF assms(1)]]
  by blast

lemma disconnected_members:
  "set (members (disconnected s st) r) =
     (if r \<in> set (socket_rooms st s) \<and> r \<noteq> JStr s then set (members st r) - {s}
      else set (members st r))"
  by (simp only: disconnected_def leave_all_members handle_disconnecting_members)

lemma disconnected_room_sockets:
  "set (room_sockets (disconnected s st) (JPrim r)) =
     (if r \<in> set (socket_rooms st s) then set (room_sockets st (JPrim r)) - {s}
      else set (room_sockets st (JPrim r)))"
proof -
  have 1: "socket_rooms (fst (handle_disconnecting s st)) s = socket_rooms st s"
    by (rule socket_rooms_cong) (simp add: handle_disconnecting_sio)
  have 2: "room_sockets (fst (handle_disconnecting s st)) (JPrim r) = room_sockets st (JPrim r)"
    by (rule room_sockets_cong) (simp add: handle_disconnecting_sio)
  show ?thesis
    by (simp only: disconnected_def leave_all_room_sockets 1 2)
qed

lemma disconnected_socket_rooms:
  "set (socket_rooms (disconnected s st) t) = (if t = s then {} else set (socket_rooms st t))"
proof -
  have "socket_rooms (fst (handle_disconnecting s st)) t = socket_rooms st t"
    by (rule socket_rooms_cong) (simp add: handle_disconnecting_sio)
  then show ?thesis
    by (simp add: disconnected_def leave_all_socket_rooms)
qed

lemma disconnected_connected:
  "sock_connected (disconnected s st) t = (sock_connected st t \<and> t \<noteq> s)"
proof -
  have "sock_connected (fst (handle_disconnecting s st)) t = sock_connected st t"
    by (rule sock_connected_cong) (simp add: handle_disconnecting_sio)
  then show ?thesis
    by (simp add: disconnected_def leave_all_connected)
qed

lemma disconnected_distinct:
  assumes "socket_rooms_distinct st"
  shows "socket_rooms_distinct (disconnected s st)"
proof -
  have "socket_rooms (fst (handle_disconnecting s st)) t = socket_rooms st t" for t
    by (rule socket_rooms_cong) (simp add: handle_disconnecting_sio)
  with assms show ?thesis
    by (simp add: socket_rooms_distinct_def disconnected_def leave_all_socket_rooms)
qed

lemmas disconnect_views = disconnected_members disconnected_room_sockets
  disconnected_socket_rooms disconnected_connected

lemma disconnect_W1:
  assumes "consistent st" and "sock_connected st s"
  shows "registry_in_transport (disconnected s st)"
  unfolding registry_in_transport_def
  by (simp only: disconnect_views split: if_split) (use consistentD [OF assms(1)] assms(2) in blast)

lemma disconnect_W3:
  assumes "consistent st" and "sock_connected st s"
  shows "transport_in_registry (disconnected s st)"
  unfolding transport_in_registry_def
  by (simp only: disconnect_views split: if_split) (use consistentD [OF assms(1)] assms(2) in blast)

lemma disconnect_W2:
  assumes "consistent st" and "sock_connected st s"
  shows "adapter_consistent (disconnected s st)"
  unfolding adapter_consistent_def
  by (simp only: disconnect_views split: if_split) (use consistentD [OF assms(1)] assms(2) in blast)

lemma disconnect_W6:
  assumes "consistent st" and "sock_connected st s"
  shows "gone_only_own_room (disconnected s st)"
  unfolding gone_only_own_room_def
  by (simp only: disconnect_views split: if_split) (use consistentD [OF assms(1)] assms(2) in blast)

lemma disconnect_consistent:
  assumes "consistent st" and "sock_connected st s"
  shows "consistent (disconnected s st)"
  unfolding consistent_def
  using disconnect_W1 [OF assms] disconnect_W3 [OF assms] disconnect_W2 [OF assms]
    disconnect_W6 [OF assms] disconnected_distinct [OF consistentD(5) [OF assms(1)]]
  by blast

lemma step_consistent:
  assumes "consistent st" and "step e st = Inr (st', out)"
  shows "consistent st'"
proof (cases e)
  case (Connect s)
  with assms connect_consistent [of st s] show ?thesis
    by (auto split: if_splits)
next
  case (Join s r)
  with assms join_consistent [of st s r] show ?thesis
    by (auto split: if_splits)
next
  case (Signal s p)
  with assms show ?thesis
    by (auto dest: handle_signal_state split: if_splits)
next
  case (Leave s r)
  with assms leave_consistent [of st s r] show ?thesis
    by (auto split: if_splits)
next
  case (Disconnect s)
  with assms disconnect_consistent [of st s] show ?thesis
    by (auto simp: disconnected_def split: if_splits prod.splits)
qed

lemma run_consistent:
  "consistent st \<Longrightarrow> run es st = Inr (st', out) \<Longrightarrow> consistent st'"
proof (induction es arbitrary: st out)
  case Nil
  then show ?case by simp
next
  case (Cons e es)
  then show ?case
    by (auto split: sum.splits prod.splits dest: step_consistent)
qed

lemma init_consistent: "consistent init"
  by (simp add: consistent_defs socket_rooms_distinct_def members_def socket_rooms_def init_def)



lemma filter_one:
  "distinct xs \<Longrightarrow> x \<in> set xs \<Longrightarrow> P x \<Longrightarrow> filter (\<lambda>y. P y \<and> y = x) xs = [x]"
  by (induction xs) (auto simp: filter_empty_conv)

lemma handle_disconnecting_out_for:
  "filter (\<lambda>e. addr e = SocketTo c (JPrim r)) (snd (handle_disconnecting c st)) =
   map (\<lambda>r. socket_to_emit c (JPrim r) (PeerLeft c) st)
     (filter (\<lambda>r'. notifies st c r' \<and> r' = r) (socket_rooms st c))"
  by (simp add: handle_disconnecting_out filter_map o_def socket_to_emit_def)

section \<open>The room named by a socket's own id\<close>












lemma socket_to_emit_intact:
  assumes "own_room_intact st s"
  shows "socket_to_emit s room m st =
           \<lparr>addr = SocketTo s room,
            recipients = filter (\<lambda>id. id \<noteq> s) (room_sockets st room), msg = m\<rparr>"
  using assms by (simp add: socket_to_emit_def own_room_intact_def del: room_sockets.simps)

lemma socket_leave_absent:
  assumes "a \<notin> set (room_sockets st (JPrim r))"
  shows "room_sockets (socket_leave a r st) v = room_sockets st v"
proof (cases v)
  case (JObj ps)
  then show ?thesis by simp
next
  case (JPrim q)
  have "set_delete a ms = ms" if "sio_rooms st r = Some ms" for ms
    using assms that by (simp add: set_delete_notin)
  then show ?thesis
    using JPrim
    by (auto simp: socket_leave_def adapter_del_def Let_def split: option.splits)
qed






section \<open>C1: a leave by a connection that is not a member\<close>

text \<open>
  C1, as amended. Let \<open>a\<close> be no member of registry room \<open>r\<close>, and let the registry not
  hold \<open>r\<close> as an empty set (no reachable registry does). Handling \<^verbatim>\<open>leave(r)\<close> from
  \<open>a\<close> leaves the registry as it was. It emits nothing when \<open>r\<close> is falsy or not in the
  registry. When the registry holds \<open>r\<close>, it emits one \<^verbatim>\<open>peer-left\<close> carrying \<open>a\<close>,
  broadcast to room \<open>r\<close> with \<^verbatim>\<open>socket.to(r)\<close>: the handler does not test whether \<open>a\<close>
  was a member. Where \<open>a\<close> is not in transport room \<open>r\<close> and the room named by \<open>a\<close>'s own
  id holds exactly \<open>a\<close>, that message reaches every socket of transport room \<open>r\<close>.
\<close>

theorem leave_non_member:
  assumes "a \<notin> set (members st r)" and "rooms st r \<noteq> Some []"
  shows "rooms (fst (handle_leave a r st)) = rooms st \<and>
         (\<not> truthy r \<or> rooms st r = None \<longrightarrow> snd (handle_leave a r st) = []) \<and>
         (truthy r \<and> rooms st r \<noteq> None \<longrightarrow>
            snd (handle_leave a r st) =
              [socket_to_emit a (JPrim r) (PeerLeft a) (socket_leave a r st)]) \<and>
         (truthy r \<and> rooms st r \<noteq> None \<and> a \<notin> set (room_sockets st (JPrim r)) \<and>
          own_room_intact st a \<longrightarrow>
            snd (handle_leave a r st) =
              [\<lparr>addr = SocketTo a (JPrim r), recipients = room_sockets st (JPrim r),
                msg = PeerLeft a\<rparr>])"
proof (cases "truthy r \<and> rooms st r \<noteq> None")
  case False
  then show ?thesis by (auto simp: handle_leave_def)
next
  case True
  then obtain ms where ms: "rooms st r = Some ms" by auto
  with assms have del: "set_delete a ms = ms" and ne: "ms \<noteq> []"
    by (simp_all add: members_def set_delete_notin)
  have reg: "(rooms st)(r \<mapsto> ms) = rooms st"
    using ms by (simp add: map_upd_triv)
  have out: "snd (handle_leave a r st) =
      [socket_to_emit a (JPrim r) (PeerLeft a) (socket_leave a r st)]"
    using True ms del ne reg by (simp add: handle_leave_def Let_def)
  have reg': "rooms (fst (handle_leave a r st)) = rooms st"
    using True ms del ne reg by (simp add: handle_leave_def Let_def socket_leave_rooms)
  have "socket_to_emit a (JPrim r) (PeerLeft a) (socket_leave a r st) =
      \<lparr>addr = SocketTo a (JPrim r), recipients = room_sockets st (JPrim r), msg = PeerLeft a\<rparr>"
    if h: "a \<notin> set (room_sockets st (JPrim r))" "own_room_intact st a"
  proof -
    have "filter (\<lambda>id. id \<notin> set [a]) (room_sockets st (JPrim r)) = room_sockets st (JPrim r)"
      using h(1) by (auto simp: filter_id_conv simp del: room_sockets.simps)
    with h(2) show ?thesis
      by (simp add: socket_to_emit_def socket_leave_absent [OF h(1)] own_room_intact_def
          del: room_sockets.simps)
  qed
  with True out reg' show ?thesis by simp
qed

theorem leave_non_member_witness:
  "rooms (fst (handle_leave ''a'' (JStr ''r'')
       (fst (projr (run [Connect ''a'', Connect ''b'', Join ''b'' (JStr ''r'')] init)))))
     = rooms (fst (projr (run [Connect ''a'', Connect ''b'', Join ''b'' (JStr ''r'')] init))) \<and>
   snd (handle_leave ''a'' (JStr ''q'')
       (fst (projr (run [Connect ''a'', Connect ''b'', Join ''b'' (JStr ''r'')] init)))) = [] \<and>
   snd (handle_leave ''a'' (JStr ''r'')
       (fst (projr (run [Connect ''a'', Connect ''b'', Join ''b'' (JStr ''r'')] init)))) =
     [\<lparr>addr = SocketTo ''a'' (JPrim (JStr ''r'')), recipients = [''b''], msg = PeerLeft ''a''\<rparr>]"
proof -
  let ?S = "fst (projr (run [Connect ''a'', Connect ''b'', Join ''b'' (JStr ''r'')] init))"
  have 1: "''a'' \<notin> set (members ?S (JStr ''r''))" "rooms ?S (JStr ''r'') \<noteq> Some []"
    by (simp_all add: relay_defs)
  have 2: "''a'' \<notin> set (members ?S (JStr ''q''))" "rooms ?S (JStr ''q'') \<noteq> Some []"
    by (simp_all add: relay_defs)
  have 3: "rooms ?S (JStr ''q'') = None"
    by (simp add: relay_defs)
  have 4: "truthy (JStr ''r'') \<and> rooms ?S (JStr ''r'') \<noteq> None \<and>
           ''a'' \<notin> set (room_sockets ?S (JPrim (JStr ''r''))) \<and> own_room_intact ?S ''a''"
    by (simp add: relay_defs own_room_intact_def)
  have 5: "room_sockets ?S (JPrim (JStr ''r'')) = [''b'']"
    by (simp add: relay_defs)
  have "snd (handle_leave ''a'' (JStr ''r'') ?S) =
     [\<lparr>addr = SocketTo ''a'' (JPrim (JStr ''r'')), recipients = [''b''], msg = PeerLeft ''a''\<rparr>]"
    using leave_non_member [OF 1, THEN conjunct2, THEN conjunct2, THEN conjunct2, THEN mp, OF 4]
    by (simp only: 5)
  with leave_non_member [OF 1] leave_non_member [OF 2] 3 show ?thesis
    by blast
qed

text \<open>
  The claim as stated, that such a leave notifies nobody, fails: \<open>b\<close> alone has joined
  room \<open>r\<close>, \<open>a\<close> sends \<^verbatim>\<open>leave(r)\<close>, and \<open>b\<close> is sent \<^verbatim>\<open>peer-left\<close> for \<open>a\<close>.
\<close>

theorem leave_non_member_notifies_counterexample:
  "''a'' \<notin> set (members (fst (projr (run [Connect ''a'', Connect ''b'', Join ''b'' (JStr ''r'')] init)))
       (JStr ''r'')) \<and>
   snd (handle_leave ''a'' (JStr ''r'')
          (fst (projr (run [Connect ''a'', Connect ''b'', Join ''b'' (JStr ''r'')] init)))) =
     [\<lparr>addr = SocketTo ''a'' (JPrim (JStr ''r'')), recipients = [''b''], msg = PeerLeft ''a''\<rparr>]"
  by (simp add: relay_defs)

section \<open>C2: a room in the registry has a member\<close>

text \<open>
  C2, as amended. After any run of events from the empty registry, every room the registry
  holds has at least one member, and every member of a room is a connected connection unless
  the room's id is that member's own connection id. A leave that deletes the last member of a
  room removes the room's entry; so does, in every reachable state, the disconnect of a
  connected connection that was the last member of a room whose id is not the connection's own
  id. A join to a room id that the registry does not hold creates the room with the joining
  connection as its only member and answers with an empty peers list.
\<close>

theorem rooms_have_members:
  "(\<forall>st' out. run es init = Inr (st', out) \<longrightarrow> rooms_nonempty st' \<and> gone_only_own_room st') \<and>
   (truthy r \<and> rooms st r = Some ms \<and> set_delete a ms = [] \<longrightarrow>
      rooms (fst (handle_leave a r st)) r = None) \<and>
   (\<forall>es' out0. run es' init = Inr (st, out0) \<and> sock_connected st a \<and> a \<in> set (members st r) \<and>
      r \<noteq> JStr a \<and> set_delete a (members st r) = [] \<longrightarrow>
      rooms (fst (handle_disconnecting a st)) r = None) \<and>
   (truthy r \<and> rooms st r = None \<longrightarrow>
      rooms (fst (handle_join b r st)) r = Some [b] \<and>
      snd (handle_join b r st) =
        [socket_to_emit b (JPrim r) (PeerJoined b) (fst (handle_join b r st)),
         socket_emit b (RoomInfo [])])"
proof (intro conjI allI impI)
  fix st' out
  assume "run es init = Inr (st', out)"
  with init_nonempty show "rooms_nonempty st'" by (rule run_nonempty)
next
  fix st' out
  assume "run es init = Inr (st', out)"
  with init_consistent have "consistent st'" by (rule run_consistent)
  then show "gone_only_own_room st'" by (simp add: consistent_def)
next
  assume "truthy r \<and> rooms st r = Some ms \<and> set_delete a ms = []"
  then show "rooms (fst (handle_leave a r st)) r = None"
    by (simp add: handle_leave_def Let_def)
next
  fix es' out0
  assume h: "run es' init = Inr (st, out0) \<and> sock_connected st a \<and> a \<in> set (members st r) \<and>
      r \<noteq> JStr a \<and> set_delete a (members st r) = []"
  then have "consistent st"
    using run_consistent [OF init_consistent] by blast
  note D = consistentD [OF this]
  from h D(1) [of a r] D(3) have r: "r \<in> set (socket_rooms st a)" by blast
  from h obtain ms' where "rooms st r = Some ms'" "members st r = ms'"
    by (auto simp: members_def split: option.splits)
  with h r show "rooms (fst (handle_disconnecting a st)) r = None"
    by (simp add: handle_disconnecting_rooms after_disconnect_def)
next
  assume "truthy r \<and> rooms st r = None"
  then show "rooms (fst (handle_join b r st)) r = Some [b]"
    by (simp add: handle_join_def Let_def socket_join_rooms set_add_def)
next
  assume "truthy r \<and> rooms st r = None"
  then show "snd (handle_join b r st) =
        [socket_to_emit b (JPrim r) (PeerJoined b) (fst (handle_join b r st)),
         socket_emit b (RoomInfo [])]"
    by (simp add: handle_join_def Let_def socket_join_rooms set_add_def)
qed

theorem rooms_have_members_witness:
  "rooms_nonempty (fst (projr (run [Connect ''a'', Connect ''b'', Join ''a'' (JStr ''r''),
       Join ''b'' (JStr ''q''), Leave ''a'' (JStr ''r''), Join ''b'' (JStr ''r'')] init))) \<and>
   gone_only_own_room (fst (projr (run [Connect ''a'', Connect ''b'', Join ''a'' (JStr ''r''),
       Join ''b'' (JStr ''q''), Leave ''a'' (JStr ''r''), Join ''b'' (JStr ''r'')] init))) \<and>
   rooms (fst (projr (run [Connect ''a'', Connect ''b'', Join ''a'' (JStr ''r''),
       Join ''b'' (JStr ''q''), Leave ''a'' (JStr ''r''), Join ''b'' (JStr ''r'')] init)))
     (JStr ''q'') = Some [''b''] \<and>
   rooms (fst (projr (run [Connect ''a'', Connect ''b'', Join ''a'' (JStr ''r''),
       Join ''b'' (JStr ''q''), Leave ''a'' (JStr ''r''), Join ''b'' (JStr ''r'')] init)))
     (JStr ''r'') = Some [''b''] \<and>
   rooms (fst (handle_leave ''a'' (JStr ''r'')
       (fst (projr (run [Connect ''a'', Connect ''b'', Join ''a'' (JStr ''r''),
          Join ''b'' (JStr ''q'')] init))))) (JStr ''r'') = None \<and>
   rooms (fst (handle_disconnecting ''b''
       (fst (projr (run [Connect ''a'', Connect ''b'', Join ''a'' (JStr ''r''),
          Join ''b'' (JStr ''q'')] init))))) (JStr ''q'') = None \<and>
   snd (handle_join ''b'' (JStr ''r'')
       (fst (projr (run [Connect ''a'', Connect ''b'', Join ''a'' (JStr ''r''),
          Join ''b'' (JStr ''q''), Leave ''a'' (JStr ''r'')] init)))) =
     [\<lparr>addr = SocketTo ''b'' (JPrim (JStr ''r'')), recipients = [], msg = PeerJoined ''b''\<rparr>,
      \<lparr>addr = SocketEmit ''b'', recipients = [''b''], msg = RoomInfo []\<rparr>]"
proof -
  let ?pre = "[Connect ''a'', Connect ''b'', Join ''a'' (JStr ''r''), Join ''b'' (JStr ''q'')]"
  let ?es = "[Connect ''a'', Connect ''b'', Join ''a'' (JStr ''r''),
       Join ''b'' (JStr ''q''), Leave ''a'' (JStr ''r''), Join ''b'' (JStr ''r'')]"
  let ?S = "fst (projr (run ?pre init))"
  let ?T = "fst (projr (run [Connect ''a'', Connect ''b'', Join ''a'' (JStr ''r''),
          Join ''b'' (JStr ''q''), Leave ''a'' (JStr ''r'')] init))"
  have e: "run ?es init = Inr (fst (projr (run ?es init)), snd (projr (run ?es init)))"
    by (simp add: relay_defs)
  have f: "rooms (fst (projr (run ?es init))) (JStr ''q'') = Some [''b'']"
    "rooms (fst (projr (run ?es init))) (JStr ''r'') = Some [''b'']"
    by (simp_all add: relay_defs)
  have l: "truthy (JStr ''r'') \<and> rooms ?S (JStr ''r'') = Some [''a''] \<and> set_delete ''a'' [''a''] = []"
    by (simp add: relay_defs)
  have d: "run ?pre init = Inr (?S, snd (projr (run ?pre init))) \<and> sock_connected ?S ''b'' \<and>
           ''b'' \<in> set (members ?S (JStr ''q'')) \<and> JStr ''q'' \<noteq> JStr ''b'' \<and>
           set_delete ''b'' (members ?S (JStr ''q'')) = []"
    by (simp add: relay_defs)
  have j: "truthy (JStr ''r'') \<and> rooms ?T (JStr ''r'') = None"
    by (simp add: relay_defs)
  have o: "[socket_to_emit ''b'' (JPrim (JStr ''r'')) (PeerJoined ''b'') (fst (handle_join ''b'' (JStr ''r'') ?T)),
         socket_emit ''b'' (RoomInfo [])] =
     [\<lparr>addr = SocketTo ''b'' (JPrim (JStr ''r'')), recipients = [], msg = PeerJoined ''b''\<rparr>,
      \<lparr>addr = SocketEmit ''b'', recipients = [''b''], msg = RoomInfo []\<rparr>]"
    by (simp add: relay_defs)
  note R1 = rooms_have_members [of ?es "JStr ''r''" ?S "[''a'']" "''a''" "''b''"]
  note R2 = rooms_have_members [of ?es "JStr ''q''" ?S "[''b'']" "''b''" "''b''"]
  note R3 = rooms_have_members [of ?es "JStr ''r''" ?T "[]" "''a''" "''b''"]
  have 1: "rooms_nonempty (fst (projr (run ?es init))) \<and> gone_only_own_room (fst (projr (run ?es init)))"
    using R1 [THEN conjunct1, rule_format, OF e] .
  have 2: "rooms (fst (handle_leave ''a'' (JStr ''r'') ?S)) (JStr ''r'') = None"
    using R1 [THEN conjunct2, THEN conjunct1, THEN mp, OF l] .
  have 3: "rooms (fst (handle_disconnecting ''b'' ?S)) (JStr ''q'') = None"
    using R2 [THEN conjunct2, THEN conjunct2, THEN conjunct1, rule_format, OF d] .
  have 4: "snd (handle_join ''b'' (JStr ''r'') ?T) =
     [\<lparr>addr = SocketTo ''b'' (JPrim (JStr ''r'')), recipients = [], msg = PeerJoined ''b''\<rparr>,
      \<lparr>addr = SocketEmit ''b'', recipients = [''b''], msg = RoomInfo []\<rparr>]"
    using R3 [THEN conjunct2, THEN conjunct2, THEN conjunct2, THEN mp, OF j, THEN conjunct2]
    by (simp only: o)
  from 1 f 2 3 4 show ?thesis by (simp only:)
qed

text \<open>
  The claim as stated fails for the room named by a connection's own id: \<open>c\<close> joins the room
  \<open>c\<close> and disconnects; the registry still holds room \<open>c\<close> with the member \<open>c\<close>, which is
  no longer connected, and the next join to that room id, by \<open>d\<close>, is answered with the
  peers list \<open>[c]\<close> instead of a fresh room.
\<close>

theorem room_outlives_members_counterexample:
  "rooms (fst (projr (run [Connect ''c'', Connect ''d'', Join ''c'' (JStr ''c''),
                           Disconnect ''c''] init))) (JStr ''c'') = Some [''c''] \<and>
   \<not> sock_connected (fst (projr (run [Connect ''c'', Connect ''d'', Join ''c'' (JStr ''c''),
                           Disconnect ''c''] init))) ''c'' \<and>
   snd (handle_join ''d'' (JStr ''c'')
      (fst (projr (run [Connect ''c'', Connect ''d'', Join ''c'' (JStr ''c''),
                        Disconnect ''c''] init)))) =
     [\<lparr>addr = SocketTo ''d'' (JPrim (JStr ''c'')), recipients = [], msg = PeerJoined ''d''\<rparr>,
      \<lparr>addr = SocketEmit ''d'', recipients = [''d''], msg = RoomInfo [''c'']\<rparr>]"
  by (simp add: relay_defs)

section \<open>C3: a join adds the connection and tells both sides\<close>




section \<open>C4: a signal with a target\<close>




section \<open>C5: a signal without a target\<close>




section \<open>C6: malformed input\<close>

text \<open>
  The other malformed inputs are dropped: a join or a leave with a falsy room id, and a signal
  whose payload can be destructured but lacks a truthy room id or data, leave the state alone
  and emit nothing.
\<close>

lemma malformed_input_dropped:
  "(\<not> truthy roomId \<longrightarrow> handle_join sid roomId st = (st, [])) \<and>
   (\<not> truthy roomId \<longrightarrow> handle_leave sid roomId st = (st, [])) \<and>
   (destructure payload = Inr (r, t, d) \<and> (\<not> truthyv r \<or> \<not> truthyv d) \<longrightarrow>
      handle_signal sid payload st = Inr (st, []))"
  by (auto simp: handle_join_def handle_leave_def handle_signal_def)

text \<open>
  C6 at its failing input: a signal event whose payload is undefined or null makes the
  handler throw a TypeError while it destructures its parameter, before the guard on
  \<open>roomId\<close> and \<open>data\<close> is reached; nothing catches it, and the run ends.
\<close>

theorem signal_undefined_payload_throws:
  "handle_signal sid (JPrim JUndefined) st = Inl TypeError \<and>
   handle_signal sid (JPrim JNull) st = Inl TypeError \<and>
   run [Connect ''a'', Signal ''a'' (JPrim JUndefined)] init = Inl TypeError"
  by (simp add: relay_defs)

theorem signal_undefined_payload_throws_witness:
  "handle_signal ''a'' (JPrim JUndefined) init = Inl TypeError \<and>
   handle_signal ''a'' (JPrim JNull) init = Inl TypeError"
  using signal_undefined_payload_throws [of "''a''" init] by simp

section \<open>C7: cleanup on disconnect\<close>

text \<open>
  C7, as amended. In every reachable state, the \<^verbatim>\<open>disconnecting\<close> handler of a connected
  socket \<open>c\<close> removes \<open>c\<close> from every registry room other than the one named by \<open>c\<close>'s own
  id. For each such room that \<open>c\<close> was a member of and that keeps a member, exactly one
  \<^verbatim>\<open>peer-left\<close> carrying \<open>c\<close> is broadcast to the room with \<^verbatim>\<open>socket.to\<close>; when the
  room named by \<open>c\<close>'s id holds exactly \<open>c\<close>, it reaches the sockets of the transport room
  other than \<open>c\<close>, among them every connected remaining member. Each such room that is left
  without members is deleted from the registry and nothing is emitted for it. The room named
  by \<open>c\<close>'s id and the rooms \<open>c\<close> is no member of keep their entries and get no message, and
  the handler emits nothing but these \<^verbatim>\<open>peer-left\<close> messages.
\<close>

theorem disconnect_cleanup:
  assumes "run es init = Inr (st, out0)" and "sock_connected st c"
  shows "(\<forall>r. r \<noteq> JStr c \<longrightarrow> c \<notin> set (members (fst (handle_disconnecting c st)) r)) \<and>
    (\<forall>r. c \<in> set (members st r) \<and> r \<noteq> JStr c \<and> set_delete c (members st r) \<noteq> [] \<longrightarrow>
       rooms (fst (handle_disconnecting c st)) r = Some (set_delete c (members st r)) \<and>
       filter (\<lambda>e. addr e = SocketTo c (JPrim r)) (snd (handle_disconnecting c st)) =
         [socket_to_emit c (JPrim r) (PeerLeft c) st] \<and>
       (own_room_intact st c \<longrightarrow>
          filter (\<lambda>e. addr e = SocketTo c (JPrim r)) (snd (handle_disconnecting c st)) =
            [\<lparr>addr = SocketTo c (JPrim r),
              recipients = filter (\<lambda>id. id \<noteq> c) (room_sockets st (JPrim r)),
              msg = PeerLeft c\<rparr>] \<and>
          (\<forall>m \<in> set (set_delete c (members st r)). sock_connected st m \<longrightarrow>
             m \<in> set (filter (\<lambda>id. id \<noteq> c) (room_sockets st (JPrim r)))))) \<and>
    (\<forall>r. c \<in> set (members st r) \<and> r \<noteq> JStr c \<and> set_delete c (members st r) = [] \<longrightarrow>
       rooms (fst (handle_disconnecting c st)) r = None \<and>
       filter (\<lambda>e. addr e = SocketTo c (JPrim r)) (snd (handle_disconnecting c st)) = []) \<and>
    (\<forall>r. c \<notin> set (members st r) \<or> r = JStr c \<longrightarrow>
       rooms (fst (handle_disconnecting c st)) r = rooms st r \<and>
       filter (\<lambda>e. addr e = SocketTo c (JPrim r)) (snd (handle_disconnecting c st)) = []) \<and>
    (\<forall>e \<in> set (snd (handle_disconnecting c st)).
       msg e = PeerLeft c \<and> (\<exists>r. addr e = SocketTo c (JPrim r)))"
proof -
  have con: "consistent st"
    using run_consistent [OF init_consistent assms(1)] .
  note D = consistentD [OF con]
  have dist: "distinct (socket_rooms st c)"
    using D(5) by (simp add: socket_rooms_distinct_def)
  have mem: "r \<in> set (socket_rooms st c)" if "c \<in> set (members st r)" for r
    using D(1) [OF that assms(2)] D(3) by blast
  have nomem: "r \<notin> set (socket_rooms st c) \<or> r = JStr c" if "c \<notin> set (members st r)" for r
    using D(2) [of c r] D(3) that by blast
  have 1: "\<forall>r. r \<noteq> JStr c \<longrightarrow> c \<notin> set (members (fst (handle_disconnecting c st)) r)"
  proof (intro allI impI)
    fix r assume "r \<noteq> JStr c"
    then show "c \<notin> set (members (fst (handle_disconnecting c st)) r)"
      using mem [of r] by (auto simp: handle_disconnecting_members)
  qed
  have 2: "rooms (fst (handle_disconnecting c st)) r = Some (set_delete c (members st r)) \<and>
       filter (\<lambda>e. addr e = SocketTo c (JPrim r)) (snd (handle_disconnecting c st)) =
         [socket_to_emit c (JPrim r) (PeerLeft c) st] \<and>
       (own_room_intact st c \<longrightarrow>
          filter (\<lambda>e. addr e = SocketTo c (JPrim r)) (snd (handle_disconnecting c st)) =
            [\<lparr>addr = SocketTo c (JPrim r),
              recipients = filter (\<lambda>id. id \<noteq> c) (room_sockets st (JPrim r)),
              msg = PeerLeft c\<rparr>] \<and>
          (\<forall>m \<in> set (set_delete c (members st r)). sock_connected st m \<longrightarrow>
             m \<in> set (filter (\<lambda>id. id \<noteq> c) (room_sockets st (JPrim r)))))"
    if h: "c \<in> set (members st r) \<and> r \<noteq> JStr c \<and> set_delete c (members st r) \<noteq> []" for r
  proof -
    from h have r: "r \<in> set (socket_rooms st c)" using mem by blast
    from h obtain ms where ms: "rooms st r = Some ms" "members st r = ms"
      by (auto simp: members_def split: option.splits)
    with h have n: "notifies st c r" by (simp add: notifies_def)
    have "filter (\<lambda>r'. notifies st c r' \<and> r' = r) (socket_rooms st c) = [r]"
      using dist r n by (rule filter_one)
    then have a: "filter (\<lambda>e. addr e = SocketTo c (JPrim r)) (snd (handle_disconnecting c st)) =
       [socket_to_emit c (JPrim r) (PeerLeft c) st]"
      by (simp add: handle_disconnecting_out_for)
    have b: "rooms (fst (handle_disconnecting c st)) r = Some (set_delete c (members st r))"
      using h r ms by (simp add: handle_disconnecting_rooms after_disconnect_def)
    have c: "m \<in> set (filter (\<lambda>id. id \<noteq> c) (room_sockets st (JPrim r)))"
      if "m \<in> set (set_delete c (members st r))" "sock_connected st m" for m
      using that D(1) [of m r] by (simp del: room_sockets.simps)
    from a b c show ?thesis
      by (simp add: socket_to_emit_intact del: room_sockets.simps)
  qed
  have 3: "rooms (fst (handle_disconnecting c st)) r = None \<and>
       filter (\<lambda>e. addr e = SocketTo c (JPrim r)) (snd (handle_disconnecting c st)) = []"
    if h: "c \<in> set (members st r) \<and> r \<noteq> JStr c \<and> set_delete c (members st r) = []" for r
  proof -
    from h have r: "r \<in> set (socket_rooms st c)" using mem by blast
    from h obtain ms where ms: "rooms st r = Some ms" "members st r = ms"
      by (auto simp: members_def split: option.splits)
    with h have n: "\<not> notifies st c r" by (simp add: notifies_def)
    then have "filter (\<lambda>r'. notifies st c r' \<and> r' = r) (socket_rooms st c) = []"
      by (auto simp: filter_empty_conv)
    then have "filter (\<lambda>e. addr e = SocketTo c (JPrim r)) (snd (handle_disconnecting c st)) = []"
      by (simp add: handle_disconnecting_out_for)
    moreover have "rooms (fst (handle_disconnecting c st)) r = None"
      using h r ms by (simp add: handle_disconnecting_rooms after_disconnect_def)
    ultimately show ?thesis by simp
  qed
  have 4: "rooms (fst (handle_disconnecting c st)) r = rooms st r \<and>
       filter (\<lambda>e. addr e = SocketTo c (JPrim r)) (snd (handle_disconnecting c st)) = []"
    if h: "c \<notin> set (members st r) \<or> r = JStr c" for r
  proof -
    from h nomem have k: "r \<notin> set (socket_rooms st c) \<or> r = JStr c" by blast
    then have "filter (\<lambda>r'. notifies st c r' \<and> r' = r) (socket_rooms st c) = []"
      by (auto simp: filter_empty_conv notifies_def)
    then have "filter (\<lambda>e. addr e = SocketTo c (JPrim r)) (snd (handle_disconnecting c st)) = []"
      by (simp add: handle_disconnecting_out_for)
    moreover have "rooms (fst (handle_disconnecting c st)) r = rooms st r"
      using k by (auto simp: handle_disconnecting_rooms after_disconnect_def)
    ultimately show ?thesis by simp
  qed
  have 5: "\<forall>e \<in> set (snd (handle_disconnecting c st)).
       msg e = PeerLeft c \<and> (\<exists>r. addr e = SocketTo c (JPrim r))"
    by (auto simp: handle_disconnecting_out socket_to_emit_def)
  from 1 2 3 4 5 show ?thesis by blast
qed

theorem disconnect_cleanup_witness:
  "rooms (fst (handle_disconnecting ''c''
      (fst (projr (run [Connect ''b'', Connect ''c'', Join ''b'' (JStr ''r''),
                        Join ''c'' (JStr ''r''), Join ''c'' (JStr ''q'')] init)))))
     (JStr ''r'') = Some [''b''] \<and>
   filter (\<lambda>e. addr e = SocketTo ''c'' (JPrim (JStr ''r'')))
     (snd (handle_disconnecting ''c''
        (fst (projr (run [Connect ''b'', Connect ''c'', Join ''b'' (JStr ''r''),
                          Join ''c'' (JStr ''r''), Join ''c'' (JStr ''q'')] init))))) =
     [\<lparr>addr = SocketTo ''c'' (JPrim (JStr ''r'')), recipients = [''b''], msg = PeerLeft ''c''\<rparr>] \<and>
   rooms (fst (handle_disconnecting ''c''
      (fst (projr (run [Connect ''b'', Connect ''c'', Join ''b'' (JStr ''r''),
                        Join ''c'' (JStr ''r''), Join ''c'' (JStr ''q'')] init)))))
     (JStr ''q'') = None \<and>
   filter (\<lambda>e. addr e = SocketTo ''c'' (JPrim (JStr ''q'')))
     (snd (handle_disconnecting ''c''
        (fst (projr (run [Connect ''b'', Connect ''c'', Join ''b'' (JStr ''r''),
                          Join ''c'' (JStr ''r''), Join ''c'' (JStr ''q'')] init))))) = []"
proof -
  let ?es = "[Connect ''b'', Connect ''c'', Join ''b'' (JStr ''r''),
              Join ''c'' (JStr ''r''), Join ''c'' (JStr ''q'')]"
  let ?S = "fst (projr (run ?es init))"
  have e: "run ?es init = Inr (?S, snd (projr (run ?es init)))"
    by (simp add: relay_defs)
  have c: "sock_connected ?S ''c''"
    by (simp add: relay_defs)
  have r: "''c'' \<in> set (members ?S (JStr ''r'')) \<and> JStr ''r'' \<noteq> JStr ''c'' \<and>
           set_delete ''c'' (members ?S (JStr ''r'')) \<noteq> []"
    by (simp add: relay_defs)
  have q: "''c'' \<in> set (members ?S (JStr ''q'')) \<and> JStr ''q'' \<noteq> JStr ''c'' \<and>
           set_delete ''c'' (members ?S (JStr ''q'')) = []"
    by (simp add: relay_defs)
  have i: "own_room_intact ?S ''c''"
    by (simp add: relay_defs own_room_intact_def)
  have v: "set_delete ''c'' (members ?S (JStr ''r'')) = [''b'']"
    "filter (\<lambda>id. id \<noteq> ''c'') (room_sockets ?S (JPrim (JStr ''r''))) = [''b'']"
    by (simp_all add: relay_defs)
  note T = disconnect_cleanup [OF e c]
  note T2 = T [THEN conjunct2, THEN conjunct1, rule_format, OF r]
  note T3 = T [THEN conjunct2, THEN conjunct2, THEN conjunct1, rule_format, OF q]
  have 1: "rooms (fst (handle_disconnecting ''c'' ?S)) (JStr ''r'') =
             Some (set_delete ''c'' (members ?S (JStr ''r'')))"
    using T2 by (rule conjunct1)
  have 2: "filter (\<lambda>e. addr e = SocketTo ''c'' (JPrim (JStr ''r'')))
              (snd (handle_disconnecting ''c'' ?S)) =
            [\<lparr>addr = SocketTo ''c'' (JPrim (JStr ''r'')),
              recipients = filter (\<lambda>id. id \<noteq> ''c'') (room_sockets ?S (JPrim (JStr ''r''))),
              msg = PeerLeft ''c''\<rparr>]"
    using T2 [THEN conjunct2, THEN conjunct2, THEN mp, OF i, THEN conjunct1] .
  have 3: "rooms (fst (handle_disconnecting ''c'' ?S)) (JStr ''q'') = None"
    using T3 by (rule conjunct1)
  have 4: "filter (\<lambda>e. addr e = SocketTo ''c'' (JPrim (JStr ''q'')))
              (snd (handle_disconnecting ''c'' ?S)) = []"
    using T3 by (rule conjunct2)
  from 1 2 3 4 v show ?thesis
    by (simp only:)
qed

text \<open>
  The claim as stated, that the disconnect removes \<open>c\<close> from every room it belongs to, fails
  for the room named by \<open>c\<close>'s own id: \<open>c\<close> is a member of the rooms \<open>c\<close> and \<open>r\<close>, and after
  its disconnect room \<open>r\<close> is gone while room \<open>c\<close> still has the member \<open>c\<close>.
\<close>

theorem disconnect_leaves_own_id_room_counterexample:
  "members (fst (projr (run [Connect ''c'', Join ''c'' (JStr ''c''), Join ''c'' (JStr ''r'')] init)))
     (JStr ''c'') = [''c''] \<and>
   members (fst (projr (run [Connect ''c'', Join ''c'' (JStr ''c''), Join ''c'' (JStr ''r'')] init)))
     (JStr ''r'') = [''c''] \<and>
   members (fst (handle_disconnecting ''c''
      (fst (projr (run [Connect ''c'', Join ''c'' (JStr ''c''), Join ''c'' (JStr ''r'')] init)))))
     (JStr ''c'') = [''c''] \<and>
   rooms (fst (projr (run [Connect ''c'', Join ''c'' (JStr ''c''), Join ''c'' (JStr ''r''),
                           Disconnect ''c''] init))) (JStr ''c'') = Some [''c''] \<and>
   rooms (fst (projr (run [Connect ''c'', Join ''c'' (JStr ''c''), Join ''c'' (JStr ''r''),
                           Disconnect ''c''] init))) (JStr ''r'') = None"
  by (simp add: relay_defs)

section \<open>C8: joining twice\<close>

text \<open>
  C8: for a truthy room id, handling the same join a second time returns the state the first
  join left, registry and transport rooms alike, and answers with a room-info whose peers are
  the members of the room at that time without the joining connection.
\<close>

theorem join_twice:
  assumes "truthy r"
  shows "handle_join c r (fst (handle_join c r st)) =
           (fst (handle_join c r st),
            [socket_to_emit c (JPrim r) (PeerJoined c) (fst (handle_join c r st)),
             socket_emit c (RoomInfo (filter (\<lambda>id. id \<noteq> c) (members (fst (handle_join c r st)) r)))])"
  using assms
  by (simp add: handle_join_def Let_def socket_join_def socket_rooms_def members_def
      socket_to_emit_def)

theorem join_twice_witness:
  "handle_join ''c'' (JStr ''r'')
     (fst (handle_join ''c'' (JStr ''r'')
        (fst (projr (run [Connect ''a'', Connect ''c'', Join ''a'' (JStr ''r'')] init))))) =
   (fst (handle_join ''c'' (JStr ''r'')
        (fst (projr (run [Connect ''a'', Connect ''c'', Join ''a'' (JStr ''r'')] init)))),
    [\<lparr>addr = SocketTo ''c'' (JPrim (JStr ''r'')), recipients = [''a''], msg = PeerJoined ''c''\<rparr>,
     \<lparr>addr = SocketEmit ''c'', recipients = [''c''], msg = RoomInfo [''a'']\<rparr>])"
proof -
  have t: "truthy (JStr ''r'')" by simp
  show ?thesis
    by (simp only: join_twice [OF t]) (simp add: relay_defs)
qed

section \<open>C9: signal handling leaves the registry alone\<close>

text \<open>
  C9: whatever the payload of a signal event, a signal handler that returns leaves the
  whole state, and so the registry, as it was; and an event that changes the registry is a
  join, a leave or a disconnect.
\<close>

theorem signal_never_mutates_registry:
  "(\<forall>st' out. handle_signal sid payload st = Inr (st', out) \<longrightarrow> st' = st) \<and>
   (\<forall>st' out. step e st = Inr (st', out) \<and> rooms st' \<noteq> rooms st \<longrightarrow> mutates_registry e)"
proof (intro conjI allI impI)
  fix st' out
  assume "handle_signal sid payload st = Inr (st', out)"
  then show "st' = st" by (rule handle_signal_state)
next
  fix st' out
  assume a: "step e st = Inr (st', out) \<and> rooms st' \<noteq> rooms st"
  show "mutates_registry e"
  proof (cases e)
    case (Connect s)
    with a show ?thesis by (auto simp: socket_join_rooms split: if_splits)
  next
    case (Signal s p)
    with a show ?thesis by (auto dest: handle_signal_state split: if_splits)
  qed simp_all
qed

theorem signal_never_mutates_registry_witness:
  "handle_signal ''a''
     (JObj [(''roomId'', JPrim (JStr ''r'')), (''data'', JPrim (JStr ''x''))])
     (fst (projr (run [Connect ''a'', Connect ''b'', Join ''b'' (JStr ''r'')] init))) =
   Inr (fst (projr (run [Connect ''a'', Connect ''b'', Join ''b'' (JStr ''r'')] init)),
        [\<lparr>addr = SocketTo ''a'' (JPrim (JStr ''r'')), recipients = [''b''],
          msg = SignalMsg ''a'' (JPrim (JStr ''x''))\<rparr>]) \<and>
   mutates_registry (Join ''a'' (JStr ''r''))"
proof -
  let ?S = "fst (projr (run [Connect ''a'', Connect ''b'', Join ''b'' (JStr ''r'')] init))"
  let ?p = "JObj [(''roomId'', JPrim (JStr ''r'')), (''data'', JPrim (JStr ''x''))]"
  let ?o = "[\<lparr>addr = SocketTo ''a'' (JPrim (JStr ''r'')), recipients = [''b''],
          msg = SignalMsg ''a'' (JPrim (JStr ''x''))\<rparr>]"
  have h: "handle_signal ''a'' ?p ?S = Inr (fst (projr (handle_signal ''a'' ?p ?S)), ?o)"
    by (simp add: relay_defs)
  have j: "step (Join ''a'' (JStr ''r'')) ?S =
             Inr (fst (handle_join ''a'' (JStr ''r'') ?S), snd (handle_join ''a'' (JStr ''r'') ?S)) \<and>
           rooms (fst (handle_join ''a'' (JStr ''r'') ?S)) \<noteq> rooms ?S"
  proof
    show "step (Join ''a'' (JStr ''r'')) ?S =
             Inr (fst (handle_join ''a'' (JStr ''r'') ?S), snd (handle_join ''a'' (JStr ''r'') ?S))"
      by (simp add: relay_defs)
    have "rooms (fst (handle_join ''a'' (JStr ''r'') ?S)) (JStr ''r'') \<noteq> rooms ?S (JStr ''r'')"
      by (simp add: relay_defs)
    then show "rooms (fst (handle_join ''a'' (JStr ''r'') ?S)) \<noteq> rooms ?S"
      by metis
  qed
  from signal_never_mutates_registry [of "''a''" ?p ?S "Join ''a'' (JStr ''r'')"] h j
  have "fst (projr (handle_signal ''a'' ?p ?S)) = ?S" and "mutates_registry (Join ''a'' (JStr ''r''))"
    by blast+
  with h show ?thesis by simp
qed

section \<open>C10: the room named by the disconnecting socket's id\<close>

text \<open>
  C10: the \<^verbatim>\<open>disconnecting\<close> handler of socket \<open>c\<close> leaves the registry entry of the room
  named by \<open>c\<close>'s own id as it was, and every message it emits is addressed to a room other
  than that one; the same holds for the whole disconnect, which ends with the socket leaving
  its transport rooms. So a connection that joined the room named by its own id stays a member
  of it in the registry after it has gone.
\<close>

theorem disconnect_skips_own_id_room:
  "rooms (fst (handle_disconnecting c st)) (JStr c) = rooms st (JStr c) \<and>
   (\<forall>e \<in> set (snd (handle_disconnecting c st)).
      \<exists>r. addr e = SocketTo c (JPrim r) \<and> r \<noteq> JStr c) \<and>
   (\<forall>st' out. step (Disconnect c) st = Inr (st', out) \<longrightarrow>
      rooms st' (JStr c) = rooms st (JStr c) \<and>
      (\<forall>e \<in> set out. \<exists>r. addr e = SocketTo c (JPrim r) \<and> r \<noteq> JStr c))"
proof -
  have 1: "rooms (fst (handle_disconnecting c st)) (JStr c) = rooms st (JStr c)"
    by (simp add: handle_disconnecting_rooms after_disconnect_def)
  have 2: "\<forall>e \<in> set (snd (handle_disconnecting c st)).
      \<exists>r. addr e = SocketTo c (JPrim r) \<and> r \<noteq> JStr c"
    by (auto simp: handle_disconnecting_out socket_to_emit_def notifies_def)
  have 3: "rooms st' (JStr c) = rooms st (JStr c) \<and>
      (\<forall>e \<in> set out. \<exists>r. addr e = SocketTo c (JPrim r) \<and> r \<noteq> JStr c)"
    if "step (Disconnect c) st = Inr (st', out)" for st' out
  proof (cases "sock_connected st c")
    case True
    with that have "st' = leave_all c (fst (handle_disconnecting c st))"
      and "out = snd (handle_disconnecting c st)"
      by (auto split: prod.splits)
    with 1 2 show ?thesis by (simp add: leave_all_rooms)
  next
    case False
    with that show ?thesis by auto
  qed
  from 1 2 3 show ?thesis by blast
qed

theorem disconnect_skips_own_id_room_witness:
  "rooms (fst (handle_disconnecting ''c''
      (fst (projr (run [Connect ''b'', Connect ''c'', Join ''c'' (JStr ''c''),
                        Join ''b'' (JStr ''r''), Join ''c'' (JStr ''r'')] init)))))
     (JStr ''c'') = Some [''c''] \<and>
   snd (handle_disconnecting ''c''
      (fst (projr (run [Connect ''b'', Connect ''c'', Join ''c'' (JStr ''c''),
                        Join ''b'' (JStr ''r''), Join ''c'' (JStr ''r'')] init)))) =
     [\<lparr>addr = SocketTo ''c'' (JPrim (JStr ''r'')), recipients = [''b''], msg = PeerLeft ''c''\<rparr>] \<and>
   rooms (fst (projr (run [Connect ''b'', Connect ''c'', Join ''c'' (JStr ''c''),
                        Join ''b'' (JStr ''r''), Join ''c'' (JStr ''r''), Disconnect ''c''] init)))
     (JStr ''c'') = Some [''c'']"
proof -
  let ?S = "fst (projr (run [Connect ''b'', Connect ''c'', Join ''c'' (JStr ''c''),
                        Join ''b'' (JStr ''r''), Join ''c'' (JStr ''r'')] init))"
  have r: "rooms ?S (JStr ''c'') = Some [''c'']"
    by (simp add: relay_defs)
  have o: "snd (handle_disconnecting ''c'' ?S) =
     [\<lparr>addr = SocketTo ''c'' (JPrim (JStr ''r'')), recipients = [''b''], msg = PeerLeft ''c''\<rparr>]"
    by (simp add: relay_defs)
  have d: "rooms (fst (projr (run [Connect ''b'', Connect ''c'', Join ''c'' (JStr ''c''),
                        Join ''b'' (JStr ''r''), Join ''c'' (JStr ''r''), Disconnect ''c''] init)))
     (JStr ''c'') = Some [''c'']"
    by (simp add: relay_defs)
  from disconnect_skips_own_id_room [of "''c''" ?S] r o d show ?thesis
    by simp
qed

end
